theory Spec2Isabelle
  imports Main "HOL-Library.Sublist"
begin

section \<open>Strings as Python uses them\<close>

text \<open>
  A Python \<open>str\<close> is modelled as a \<open>string\<close>: one \<open>char\<close> per code point, for the
  code points below 256. \<open>split_on c s\<close> is \<open>s.split(c)\<close> for a one-character
  separator: the empty string splits into one empty segment.
\<close>

fun split_on :: "char \<Rightarrow> string \<Rightarrow> string list" where
  "split_on sep [] = [[]]"
| "split_on sep (c # cs) =
     (if c = sep then [] # split_on sep cs
      else (case split_on sep cs of
              [] \<Rightarrow> [[c]]
            | l # ls \<Rightarrow> (c # l) # ls))"

text \<open>\<open>str_join sep xs\<close> is \<open>sep.join(xs)\<close>.\<close>

fun str_join :: "string \<Rightarrow> string list \<Rightarrow> string" where
  "str_join sep [] = []"
| "str_join sep [x] = x"
| "str_join sep (x # y # ys) = x @ sep @ str_join sep (y # ys)"

text \<open>\<open>starts_with p s\<close> is \<open>s.startswith(p)\<close>; \<open>str_in k s\<close> is \<open>k in s\<close>.\<close>

fun starts_with :: "string \<Rightarrow> string \<Rightarrow> bool" where
  "starts_with [] s = True"
| "starts_with (p # ps) [] = False"
| "starts_with (p # ps) (c # cs) = (p = c \<and> starts_with ps cs)"

fun str_in :: "string \<Rightarrow> string \<Rightarrow> bool" where
  "str_in k [] = (k = [])"
| "str_in k (c # cs) = (starts_with k (c # cs) \<or> str_in k cs)"

section \<open>Errors and output\<close>

text \<open>
  \<open>SystemExit n\<close> is \<open>sys.exit(n)\<close>. \<open>NameError\<close>, \<open>TypeError\<close> and \<open>IndexError\<close> are the uncaught
  exceptions the program can raise; the interpreter then ends with status 1.
\<close>

datatype error = SystemExit nat | NameError | TypeError | IndexError

fun exit_status :: "error \<Rightarrow> nat" where
  "exit_status (SystemExit n) = n"
| "exit_status NameError = 1"
| "exit_status TypeError = 1"
| "exit_status IndexError = 1"

text \<open>
  What the program writes to standard output: a \<open>print\<close> of a string, or a table handed
  to \<open>tabulate\<close> (headers and rows; the rendering is the library's).
\<close>

datatype out = Line string | Table "string list" "string list list"

section \<open>Filter\<close>

text \<open>
  \<open>data\<close> is a list of groups, a group is the list of records of one module directory,
  a record is a list of fields.
  \<^verbatim>\<open>filter(lambda x: any(keyword in item for sublist in x for item in sublist), data)\<close>
\<close>

definition Filter :: "string list list list \<Rightarrow> string \<Rightarrow> string list list list" where
  "Filter data keyword =
     filter (\<lambda>x. list_ex (\<lambda>item. str_in keyword item) (concat x)) data"

section \<open>stacked\_module\_path\_cleanup\<close>

definition stacked_module_path_cleanup :: "string list \<Rightarrow> string \<Rightarrow> error + string list" where
  "stacked_module_path_cleanup modules collection =
     (if collection = ''MPI'' then
        Inr (filter (\<lambda>m. length (split_on CHR ''/'' m) = 7) modules)
      else if collection = ''Python'' then
        Inr (filter (\<lambda>m. length (split_on CHR ''/'' m) = 6) modules)
      else if collection = ''Compilers'' then
        Inr (filter (\<lambda>m. length (split_on CHR ''/'' m) = 7) modules)
      else Inl (SystemExit 1))"

text \<open>The depth the specification expects of each stacked layout kind.\<close>

definition expected_depth :: "string \<Rightarrow> nat" where
  "expected_depth collection = (if collection = ''Python'' then 6 else 7)"

section \<open>The dependency pattern\<close>

text \<open>
  \<^verbatim>\<open>re.findall(r'^\s*depends_on\("([^"]+)"\)', lua_contents, re.MULTILINE)\<close>

  \<open>is_space\<close> is the class \<open>\s\<close> of a \<open>str\<close> pattern on the code points below 256: the
  characters for which \<open>str.isspace\<close> holds. The line feed is one of them.
\<close>

definition is_space :: "char \<Rightarrow> bool" where
  "is_space c =
     (c \<in> set [CHR 0x09, CHR 0x0A, CHR 0x0B, CHR 0x0C, CHR 0x0D, CHR 0x1C, CHR 0x1D,
                CHR 0x1E, CHR 0x1F, CHR 0x20, CHR 0x85, CHR 0xA0])"

definition newline :: char where
  "newline = CHR 0x0A"

definition dquote :: char where
  "dquote = CHR 0x22"

text \<open>The literal parts of the pattern: \<^verbatim>\<open>depends_on("\<close> and \<^verbatim>\<open>")\<close>.\<close>

definition dep_open :: string where
  "dep_open = ''depends_on('' @ [dquote]"

definition dep_close :: string where
  "dep_close = [dquote, CHR '')'']"

fun strip_prefix :: "string \<Rightarrow> string \<Rightarrow> string option" where
  "strip_prefix [] s = Some s"
| "strip_prefix (p # ps) [] = None"
| "strip_prefix (p # ps) (c # cs) = (if p = c then strip_prefix ps cs else None)"

text \<open>
  One attempt of the pattern behind \<open>^\<close>, at the head of \<open>s\<close>: the captured name and the
  text after the match. \<open>\s*\<close> and \<open>[^"]+\<close> are greedy, and giving back a character never
  helps, because the literal that follows each of them starts with a character outside
  its class; so the longest run is the only candidate. Neither class excludes the line
  feed.
\<close>

definition match_dep :: "string \<Rightarrow> (string \<times> string) option" where
  "match_dep s =
     (case strip_prefix dep_open (dropWhile is_space s) of
        None \<Rightarrow> None
      | Some s2 \<Rightarrow>
          (let name = takeWhile (\<lambda>c. c \<noteq> dquote) s2 in
           if name = [] then None
           else (case strip_prefix dep_close (dropWhile (\<lambda>c. c \<noteq> dquote) s2) of
                   None \<Rightarrow> None
                 | Some rest \<Rightarrow> Some (name, rest))))"

text \<open>
  \<open>findall_from bol s\<close> is the scan of \<open>re.findall\<close> over the rest \<open>s\<close> of the text;
  \<open>bol\<close> says that \<open>^\<close> matches here (start of the text, or just after a line feed).
  After a match the scan goes on behind it.
\<close>

lemma strip_prefix_Some: "strip_prefix p s = Some r \<longleftrightarrow> s = p @ r"
  by (induction p s rule: strip_prefix.induct) auto

lemma match_dep_shorter:
  assumes "match_dep s = Some (n, r)"
  shows "length r < length s"
proof -
  from assms obtain s2 where
    a: "dropWhile is_space s = dep_open @ s2" and
    b: "dropWhile (\<lambda>c. c \<noteq> dquote) s2 = dep_close @ r"
    by (auto simp: match_dep_def Let_def strip_prefix_Some split: option.splits if_splits)
  have "length r < length (dropWhile (\<lambda>c. c \<noteq> dquote) s2)"
    by (simp add: b dep_close_def)
  also have "\<dots> \<le> length s2"
    by (rule length_dropWhile_le)
  also have "\<dots> \<le> length (dropWhile is_space s)"
    by (simp add: a)
  also have "\<dots> \<le> length s"
    by (rule length_dropWhile_le)
  finally show ?thesis .
qed

function findall_from :: "bool \<Rightarrow> string \<Rightarrow> string list" where
  "findall_from bol [] = []"
| "findall_from bol (c # cs) =
     (case (if bol then match_dep (c # cs) else None) of
        Some (name, rest) \<Rightarrow> name # findall_from False rest
      | None \<Rightarrow> findall_from (c = newline) cs)"
  by pat_completeness auto

termination
  by (relation "measure (\<lambda>(bol, s). length s)")
     (auto split: if_splits dest: match_dep_shorter)

definition findall_deps :: "string \<Rightarrow> string list" where
  "findall_deps lua_contents = findall_from True lua_contents"

section \<open>The file system, as the program reads it\<close>

text \<open>
  The outcome of \<open>open(file, 'r')\<close> followed by \<open>read()\<close>: the text, a
  \<open>FileNotFoundError\<close>, or any other exception, with its \<open>str(e)\<close>.
\<close>

datatype read_result = Content string | FileNotFound | OtherError string

text \<open>
  A file found by \<open>glob.glob\<close>: its \<open>Path(file).stem\<close> and what reading it gives.
  \<open>glob\<close> also lists a dangling symbolic link, whose \<open>open\<close> raises
  \<open>FileNotFoundError\<close>.
\<close>

type_synonym lua_file = "string \<times> read_result"

text \<open>
  \<open>listdir\<close> is \<open>os.listdir\<close> (\<open>Inl msg\<close> for an \<open>OSError\<close> whose text is \<open>msg\<close>),
  \<open>isdir\<close> is \<open>os.path.isdir\<close>, \<open>walk\<close> gives the directories \<open>os.walk\<close> yields
  (it skips what it cannot list, and yields nothing for a top that is no directory),
  \<open>glob\<close> gives the files matching a pattern, in the order \<open>glob.glob\<close> lists them.
\<close>

record filesystem =
  listdir :: "string \<Rightarrow> string + string list"
  isdir :: "string \<Rightarrow> bool"
  walk :: "string \<Rightarrow> string list"
  glob :: "string \<Rightarrow> lua_file list"

text \<open>\<open>os.path.join\<close> of two components, on POSIX.\<close>

definition os_path_join :: "string \<Rightarrow> string \<Rightarrow> string" where
  "os_path_join a b =
     (if starts_with ''/'' b then b
      else if a = [] \<or> last a = CHR ''/'' then a @ b
      else a @ ''/'' @ b)"

definition os_path_join3 :: "string \<Rightarrow> string \<Rightarrow> string \<Rightarrow> string" where
  "os_path_join3 a b c = os_path_join (os_path_join a b) c"

text \<open>What a function has printed, and its result or the exception that ended it.\<close>

type_synonym 'a io = "out list \<times> (error + 'a)"

section \<open>list\_of\_strings, gather\_collections\<close>

definition list_of_strings :: "string \<Rightarrow> string list" where
  "list_of_strings arg = split_on CHR '','' arg"

definition gather_collections :: "filesystem \<Rightarrow> string \<Rightarrow> out list \<times> string list option" where
  "gather_collections fs directory =
     (case listdir fs directory of
        Inl e \<Rightarrow> ([Line (''Error: '' @ e)], None)
      | Inr names \<Rightarrow>
          ([], Some (filter (\<lambda>name. isdir fs (os_path_join directory name) \<and> name \<noteq> ''.git'')
                      names)))"

section \<open>get\_module\_dependency\<close>

text \<open>
  The loop over the files. The handler of \<open>FileNotFoundError\<close> formats the name
  \<open>filename\<close>, which is bound nowhere: the handler raises \<open>NameError\<close>, which no
  clause of this \<open>try\<close> catches.
\<close>

fun get_module_dependency_loop ::
  "lua_file list \<Rightarrow> string \<Rightarrow> out list \<Rightarrow> string list list \<Rightarrow> string list list io" where
  "get_module_dependency_loop [] pkg_name printed output = (printed, Inr output)"
| "get_module_dependency_loop ((pkg_ver, r) # files) pkg_name printed output =
     (case r of
        Content lua_contents \<Rightarrow>
          (let matches = findall_deps lua_contents in
           if length matches > 0 then
             get_module_dependency_loop files pkg_name printed
               (output @ [[pkg_name @ ''/'' @ pkg_ver, str_join '', '' matches]])
           else
             get_module_dependency_loop files pkg_name printed
               (output @ [[pkg_name @ ''/'' @ pkg_ver, []]]))
      | FileNotFound \<Rightarrow> (printed, Inl NameError)
      | OtherError e \<Rightarrow>
          get_module_dependency_loop files pkg_name
            (printed @ [Line (''An error occurred: '' @ e)]) output)"

definition get_module_dependency :: "filesystem \<Rightarrow> string \<Rightarrow> string \<Rightarrow> string list list io" where
  "get_module_dependency fs path pkg_name =
     get_module_dependency_loop (glob fs (os_path_join path ''*.lua'')) pkg_name [] []"

section \<open>get\_module\_names, stacked\_get\_module\_names\<close>

text \<open>The condition of the comprehension tests the collection's directory, not the entry.\<close>

definition get_module_names :: "filesystem \<Rightarrow> string \<Rightarrow> string \<Rightarrow> out list \<times> string list option" where
  "get_module_names fs directory collection =
     (case listdir fs (os_path_join directory collection) of
        Inl e \<Rightarrow> ([Line (''Error: '' @ e)], None)
      | Inr names \<Rightarrow>
          ([], Some (filter (\<lambda>module. isdir fs (os_path_join directory collection)) names)))"

text \<open>
  \<open>os.walk\<close> passes over the errors of its own listing, so the handler of \<open>OSError\<close>
  around it is never entered and the function always returns a list.
\<close>

definition stacked_get_module_names :: "filesystem \<Rightarrow> string \<Rightarrow> string \<Rightarrow> string list" where
  "stacked_get_module_names fs directory collection =
     walk fs (os_path_join directory collection)"

section \<open>stacked\_case\<close>

text \<open>
  The end of each branch: the table of the flattened groups, behind \<open>print("\n")\<close>,
  or the count-zero line.
\<close>

definition report :: "string list \<Rightarrow> string list list list \<Rightarrow> string \<Rightarrow> out list" where
  "report headers output collection =
     (if length output > 0 then [Line [newline], Table headers (concat output)]
      else [Line (''0 softwares found for '' @ collection)])"

text \<open>
  The loop over the cleaned paths is the same in the three branches but for the context
  fields \<open>ctx\<close> put before each record and the index \<open>pk\<close> of the package name among
  the segments (\<open>pkg_name0\<close>, \<open>x0\<close> and \<open>y0\<close> stand for the source's names with a
  leading underscore, which no identifier here may have). An index out of range raises \<open>IndexError\<close> in Python; the cleaned
  paths have 7 (6 for Python) segments.
\<close>

datatype layout = MPI_layout | Python_layout | Compilers_layout

fun context_fields :: "layout \<Rightarrow> string list \<Rightarrow> string list" where
  "context_fields MPI_layout pkg_name0 = [pkg_name0 ! 4, pkg_name0 ! 5]"
| "context_fields Python_layout pkg_name0 = [str_join ''/'' (take 2 (drop 3 pkg_name0))]"
| "context_fields Compilers_layout pkg_name0 = [str_join ''/'' (take 2 (drop 4 pkg_name0))]"

fun pkg_index :: "layout \<Rightarrow> nat" where
  "pkg_index MPI_layout = 6"
| "pkg_index Python_layout = 5"
| "pkg_index Compilers_layout = 6"

fun headers_of :: "layout \<Rightarrow> string \<Rightarrow> string list" where
  "headers_of MPI_layout collection =
     [''MPI Ver.'', ''Compiler'', collection @ '' Packages'', ''Dependency'']"
| "headers_of Python_layout collection =
     [''Python Version'', collection @ '' Packages'', ''Dependency'']"
| "headers_of Compilers_layout collection =
     [''Compiler Version'', collection @ '' Packages'', ''Dependency'']"

fun stacked_loop ::
  "filesystem \<Rightarrow> string \<Rightarrow> string \<Rightarrow> layout \<Rightarrow> string list \<Rightarrow> out list \<Rightarrow>
   string list list list \<Rightarrow> string list list list io" where
  "stacked_loop fs directory collection k [] printed output = (printed, Inr output)"
| "stacked_loop fs directory collection k (module # modules) printed output =
     (let path = os_path_join3 directory collection module;
          pkg_name0 = split_on CHR ''/'' module
      in if length pkg_name0 \<le> pkg_index k then (printed, Inl IndexError)
         else (case get_module_dependency fs path (pkg_name0 ! pkg_index k) of
                 (p, Inl e) \<Rightarrow> (printed @ p, Inl e)
               | (p, Inr y0) \<Rightarrow>
                   if length y0 > 0 then
                     stacked_loop fs directory collection k modules (printed @ p)
                       (output @ [map (\<lambda>item. context_fields k pkg_name0 @ item) y0])
                   else stacked_loop fs directory collection k modules (printed @ p) output))"

definition stacked_branch ::
  "filesystem \<Rightarrow> string \<Rightarrow> string \<Rightarrow> layout \<Rightarrow> string list \<Rightarrow> bool \<Rightarrow> string \<Rightarrow> unit io" where
  "stacked_branch fs directory collection k modules filt keyword =
     (case stacked_loop fs directory collection k modules [] [] of
        (p, Inl e) \<Rightarrow> (p, Inl e)
      | (p, Inr output) \<Rightarrow>
          (p @ report (headers_of k collection)
                 (if filt then Filter output keyword else output) collection,
           Inr ()))"

definition stacked_case :: "filesystem \<Rightarrow> string \<Rightarrow> string \<Rightarrow> bool \<Rightarrow> string \<Rightarrow> unit io" where
  "stacked_case fs directory collection filt keyword =
     (let x0 = stacked_get_module_names fs directory collection in
      if length x0 > 0 then
        (case stacked_module_path_cleanup x0 collection of
           Inl e \<Rightarrow> ([], Inl e)
         | Inr modules \<Rightarrow>
             if collection = ''MPI'' then
               stacked_branch fs directory collection MPI_layout modules filt keyword
             else if collection = ''Python'' then
               stacked_branch fs directory collection Python_layout modules filt keyword
             else if collection = ''Compilers'' then
               stacked_branch fs directory collection Compilers_layout modules filt keyword
             else ([], Inr ()))
      else ([], Inr ()))"

section \<open>main\<close>

text \<open>
  The parsed command line: \<open>--dir\<close>, the raw text of \<open>--collection\<close> when given, and
  \<open>--filter\<close>. \<open>--output\<close> and \<open>--tree\<close> are read and never used.
\<close>

record args =
  args_dir :: string
  args_collection :: "string option"
  args_filter :: string

text \<open>The flat branch of the loop of \<open>main\<close>: every group is appended, empty or not.\<close>

fun flat_loop ::
  "filesystem \<Rightarrow> string \<Rightarrow> string \<Rightarrow> string list \<Rightarrow> out list \<Rightarrow>
   string list list list \<Rightarrow> string list list list io" where
  "flat_loop fs directory collection [] printed output = (printed, Inr output)"
| "flat_loop fs directory collection (module # modules) printed output =
     (let path = os_path_join3 directory collection module in
      case get_module_dependency fs path module of
        (p, Inl e) \<Rightarrow> (printed @ p, Inl e)
      | (p, Inr y0) \<Rightarrow>
          flat_loop fs directory collection modules (printed @ p) (output @ [y0]))"

definition flat_case :: "filesystem \<Rightarrow> string \<Rightarrow> string \<Rightarrow> bool \<Rightarrow> string \<Rightarrow> unit io" where
  "flat_case fs directory collection filt keyword =
     (case get_module_names fs directory collection of
        (p, None) \<Rightarrow> (p, Inl TypeError)
      | (p, Some x0) \<Rightarrow>
          if length x0 > 0 then
            (case flat_loop fs directory collection x0 [] [] of
               (q, Inl e) \<Rightarrow> (p @ q, Inl e)
             | (q, Inr output) \<Rightarrow>
                 (p @ q @ report [collection @ '' Packages'', ''Dependency'']
                            (if filt then Filter output keyword else output) collection,
                  Inr ()))
          else (p, Inr ()))"

fun main_loop ::
  "filesystem \<Rightarrow> string \<Rightarrow> bool \<Rightarrow> string \<Rightarrow> string list \<Rightarrow> out list \<Rightarrow> unit io" where
  "main_loop fs directory filt keyword [] printed = (printed, Inr ())"
| "main_loop fs directory filt keyword (collection # collections) printed =
     (case (if collection \<notin> set [''Python'', ''MPI'', ''Compilers'']
            then flat_case fs directory collection filt keyword
            else if filt then stacked_case fs directory collection filt keyword
            else stacked_case fs directory collection False [])
      of (p, Inl e) \<Rightarrow> (printed @ p, Inl e)
       | (p, Inr u) \<Rightarrow> main_loop fs directory filt keyword collections (printed @ p))"

definition main :: "filesystem \<Rightarrow> args \<Rightarrow> unit io" where
  "main fs a =
     (let directory = args_dir a; keyword = args_filter a in
      case gather_collections fs directory of
        (p, None) \<Rightarrow> (p, Inl TypeError)
      | (p, Some found) \<Rightarrow>
          (let collections = filter (\<lambda>col. col \<noteq> ''Collections'') found;
               filt = (length keyword > 0)
           in case args_collection a of
                None \<Rightarrow> main_loop fs directory filt keyword collections p
              | Some arg \<Rightarrow>
                  if list_all (\<lambda>x. x \<in> set collections) (list_of_strings arg) then
                    main_loop fs directory filt keyword (list_of_strings arg) p
                  else (p @ [Line ''Invalid Collection Name''], Inl (SystemExit 1))))"

section \<open>The specification's reading, and an example installation\<close>

text \<open>
  The layout kind \<open>stacked_case\<close> decodes a stacked collection with.
\<close>

definition layout_of :: "string \<Rightarrow> layout" where
  "layout_of collection =
     (if collection = ''MPI'' then MPI_layout
      else if collection = ''Python'' then Python_layout
      else Compilers_layout)"

text \<open>
  The dependency list as the specification words it: the text is cut into lines at the
  line feeds, and a line declares \<open>name\<close> when, after its leading whitespace, it goes
  on with \<^verbatim>\<open>depends_on("\<close>, a non-empty \<open>name\<close> without double quote, and \<^verbatim>\<open>")\<close>.
  Each line gives at most one name, and the names are kept in the order of the lines.
\<close>

definition spec_line_name :: "string \<Rightarrow> string option" where
  "spec_line_name line =
     (let t = dropWhile is_space line in
      if starts_with dep_open t then
        (let u = drop (length dep_open) t;
             name = takeWhile (\<lambda>c. c \<noteq> dquote) u
         in if name \<noteq> [] \<and> starts_with dep_close (drop (length name) u)
            then Some name else None)
      else None)"

definition spec_dependency_list :: "string \<Rightarrow> string list" where
  "spec_dependency_list contents =
     List.map_filter spec_line_name (split_on newline contents)"

text \<open>
  A small module tree under \<open>/sw/modules\<close>: a flat collection \<open>Apps\<close> holding a plain
  file \<open>README\<close> beside the module \<open>gcc\<close>, a flat collection \<open>Broken\<close> whose module
  \<open>tool\<close> holds a dangling link \<open>1.0.lua\<close>, and the stacked collection \<open>MPI\<close> with
  the package \<open>fftw\<close> under \<open>mvapich2/gcc\<close>, which depends on \<open>gcc/10\<close>.
\<close>

definition example_fs :: filesystem where
  "example_fs =
     \<lparr>listdir = (\<lambda>p.
        if p = ''/sw/modules'' then
          Inr [''.git'', ''Collections'', ''Apps'', ''Broken'', ''MPI'', ''notes.txt'']
        else if p = ''/sw/modules/Apps'' then Inr [''README'', ''gcc'']
        else if p = ''/sw/modules/Broken'' then Inr [''tool'']
        else Inl ''[Errno 2] No such file or directory''),
      isdir = (\<lambda>p. p \<in> set [''/sw/modules'', ''/sw/modules/.git'', ''/sw/modules/Collections'',
                               ''/sw/modules/Apps'', ''/sw/modules/Apps/gcc'',
                               ''/sw/modules/Broken'', ''/sw/modules/Broken/tool'',
                               ''/sw/modules/MPI'', ''/sw/modules/MPI/mvapich2'',
                               ''/sw/modules/MPI/mvapich2/gcc'',
                               ''/sw/modules/MPI/mvapich2/gcc/fftw'']),
      walk = (\<lambda>p.
        if p = ''/sw/modules/MPI'' then
          [''/sw/modules/MPI'', ''/sw/modules/MPI/mvapich2'', ''/sw/modules/MPI/mvapich2/gcc'',
           ''/sw/modules/MPI/mvapich2/gcc/fftw'']
        else []),
      glob = (\<lambda>p.
        if p = ''/sw/modules/MPI/mvapich2/gcc/fftw/*.lua'' then
          [(''3.3'', Content (dep_open @ ''gcc/10'' @ dep_close))]
        else if p = ''/sw/modules/Apps/gcc/*.lua'' then
          [(''10.3.0'', Content ''-- no dependencies'')]
        else if p = ''/sw/modules/Broken/tool/*.lua'' then
          [(''1.0'', FileNotFound), (''2.0'', Content [])]
        else [])\<rparr>"

text \<open>
  A module file: two declarations at a line start, one of them behind a tab and
  followed by a second declaration on the same line; a declaration behind a comment
  mark; and one in the wrong case.
\<close>

definition example_lua :: string where
  "example_lua =
     ''  '' @ dep_open @ ''gcc/10'' @ dep_close @ '' -- compiler'' @ [newline]
     @ ''-- '' @ dep_open @ ''intel'' @ dep_close @ [newline]
     @ [newline]
     @ [CHR 0x09] @ dep_open @ ''openmpi/4'' @ dep_close @ dep_open @ ''cuda'' @ dep_close @ [newline]
     @ ''Depends_On('' @ [dquote] @ ''zlib'' @ dep_close"

section \<open>Strings: what the helpers compute\<close>

lemma starts_with_iff: "starts_with p s \<longleftrightarrow> (\<exists>q. s = p @ q)"
  by (induction p s rule: starts_with.induct) auto

text \<open>\<open>str_in k s\<close> holds exactly when \<open>k\<close> occurs in \<open>s\<close> as a contiguous block.\<close>

lemma str_in_iff: "str_in k s \<longleftrightarrow> (\<exists>p q. s = p @ k @ q)"
proof (induction s)
  case Nil
  then show ?case by auto
next
  case (Cons c cs)
  show ?case
  proof
    assume "str_in k (c # cs)"
    then consider "starts_with k (c # cs)" | "str_in k cs" by auto
    then show "\<exists>p q. c # cs = p @ k @ q"
    proof cases
      case 1
      then obtain q where "c # cs = k @ q" by (auto simp: starts_with_iff)
      then have "c # cs = [] @ k @ q" by simp
      then show ?thesis by blast
    next
      case 2
      then obtain p q where "cs = p @ k @ q" using Cons.IH by auto
      then have "c # cs = (c # p) @ k @ q" by simp
      then show ?thesis by blast
    qed
  next
    assume "\<exists>p q. c # cs = p @ k @ q"
    then obtain p q where pq: "c # cs = p @ k @ q" by auto
    show "str_in k (c # cs)"
    proof (cases p)
      case Nil
      then have "starts_with k (c # cs)" using pq by (auto simp: starts_with_iff)
      then show ?thesis by simp
    next
      case (Cons a p')
      then have "cs = p' @ k @ q" using pq by simp
      then have "str_in k cs" using Cons.IH by auto
      then show ?thesis by simp
    qed
  qed
qed

text \<open>The number of segments is one more than the number of separators.\<close>

lemma length_split_on: "length (split_on sep s) = Suc (length (filter (\<lambda>c. c = sep) s))"
  by (induction s) (auto split: list.splits)

section \<open>Path depth (C2, C8)\<close>

text \<open>
  C2. For a path of a stacked collection, \<open>stacked_module_path_cleanup\<close> keeps the path
  if and only if its number of segments is the depth expected of the collection's layout
  kind: 7 for MPI, 7 for Compilers, 6 for Python. Every other path, one segment off or
  more, is dropped from the list the caller goes on with.
\<close>

theorem cleanup_keeps_exact_depth:
  assumes "collection \<in> {''MPI'', ''Compilers'', ''Python''}"
  shows "expected_depth ''MPI'' = 7 \<and> expected_depth ''Compilers'' = 7
         \<and> expected_depth ''Python'' = 6
         \<and> (\<exists>kept. stacked_module_path_cleanup modules collection = Inr kept
              \<and> kept = filter (\<lambda>m. length (split_on CHR ''/'' m) = expected_depth collection)
                         modules
              \<and> (\<forall>m. m \<in> set kept \<longleftrightarrow>
                     m \<in> set modules
                     \<and> length (split_on CHR ''/'' m) = expected_depth collection))"
  using assms by (auto simp: stacked_module_path_cleanup_def expected_depth_def)

theorem cleanup_keeps_exact_depth_witness:
  "''Python'' \<in> {''MPI'', ''Compilers'', ''Python''}
   \<and> stacked_module_path_cleanup
        [''/sw/modules/Python/3.10'', ''/sw/modules/Python/3.10/numpy'',
         ''/sw/modules/Python/3.10/numpy/doc'']
        ''Python''
      = Inr [''/sw/modules/Python/3.10/numpy'']"
  using cleanup_keeps_exact_depth
          [of "''Python''" "[''/sw/modules/Python/3.10'', ''/sw/modules/Python/3.10/numpy'',
                             ''/sw/modules/Python/3.10/numpy/doc'']"]
  by (simp add: expected_depth_def)

text \<open>
  C8. A collection name that is none of \<open>MPI\<close>, \<open>Python\<close>, \<open>Compilers\<close> makes
  \<open>stacked_module_path_cleanup\<close> exit with status 1, and \<open>stacked_case\<close>, which calls it
  on a non-empty walk, ends with that exit without having printed anything. For a known
  kind the function raises nothing and returns the paths of the expected depth, in
  their order: a path of another depth is in the input and not in the result, a path
  of the expected depth stays. When every walked path is rejected, \<open>stacked_case\<close>
  ends normally, having printed the count-zero line and no error.
\<close>

theorem cleanup_unknown_kind_exits:
  "(collection \<notin> {''MPI'', ''Python'', ''Compilers''} \<longrightarrow>
      stacked_module_path_cleanup modules collection = Inl (SystemExit 1)
      \<and> exit_status (SystemExit 1) \<noteq> 0
      \<and> (walk fs (os_path_join directory collection) \<noteq> [] \<longrightarrow>
           stacked_case fs directory collection filt keyword = ([], Inl (SystemExit 1))))
   \<and> (collection \<in> {''MPI'', ''Python'', ''Compilers''} \<longrightarrow>
        (\<exists>kept. stacked_module_path_cleanup modules collection = Inr kept
                \<and> kept = filter (\<lambda>m. length (split_on CHR ''/'' m) = expected_depth collection)
                           modules
                \<and> subseq kept modules
                \<and> (\<forall>m \<in> set modules.
                      length (split_on CHR ''/'' m) \<noteq> expected_depth collection \<longrightarrow>
                      m \<notin> set kept)
                \<and> (\<forall>m \<in> set modules.
                      length (split_on CHR ''/'' m) = expected_depth collection \<longrightarrow>
                      m \<in> set kept))
        \<and> (walk fs (os_path_join directory collection) \<noteq> []
           \<and> (\<forall>m \<in> set (walk fs (os_path_join directory collection)).
                 length (split_on CHR ''/'' m) \<noteq> expected_depth collection) \<longrightarrow>
             stacked_case fs directory collection filt keyword
               = ([Line (''0 softwares found for '' @ collection)], Inr ())))"
proof (intro conjI impI)
  assume "collection \<notin> {''MPI'', ''Python'', ''Compilers''}"
  then show "stacked_module_path_cleanup modules collection = Inl (SystemExit 1)"
    by (simp add: stacked_module_path_cleanup_def)
next
  show "exit_status (SystemExit 1) \<noteq> 0" by simp
next
  assume "collection \<notin> {''MPI'', ''Python'', ''Compilers''}"
    and "walk fs (os_path_join directory collection) \<noteq> []"
  then show "stacked_case fs directory collection filt keyword = ([], Inl (SystemExit 1))"
    by (simp add: stacked_module_path_cleanup_def stacked_case_def stacked_get_module_names_def)
next
  assume "collection \<in> {''MPI'', ''Python'', ''Compilers''}"
  then have "stacked_module_path_cleanup modules collection
             = Inr (filter (\<lambda>m. length (split_on CHR ''/'' m) = expected_depth collection) modules)"
    by (auto simp: stacked_module_path_cleanup_def expected_depth_def)
  then show "\<exists>kept. stacked_module_path_cleanup modules collection = Inr kept
                \<and> kept = filter (\<lambda>m. length (split_on CHR ''/'' m) = expected_depth collection)
                           modules
                \<and> subseq kept modules
                \<and> (\<forall>m \<in> set modules.
                      length (split_on CHR ''/'' m) \<noteq> expected_depth collection \<longrightarrow>
                      m \<notin> set kept)
                \<and> (\<forall>m \<in> set modules.
                      length (split_on CHR ''/'' m) = expected_depth collection \<longrightarrow>
                      m \<in> set kept)"
    by simp
next
  let ?w = "walk fs (os_path_join directory collection)"
  assume known: "collection \<in> {''MPI'', ''Python'', ''Compilers''}"
    and w: "?w \<noteq> [] \<and> (\<forall>m \<in> set ?w.
               length (split_on CHR ''/'' m) \<noteq> expected_depth collection)"
  then have "filter (\<lambda>m. length (split_on CHR ''/'' m) = expected_depth collection) ?w = []"
    by (simp add: filter_empty_conv)
  with known have c: "stacked_module_path_cleanup ?w collection = Inr []"
    by (auto simp: stacked_module_path_cleanup_def expected_depth_def)
  have b: "stacked_branch fs directory collection k [] filt keyword
           = ([Line (''0 softwares found for '' @ collection)], Inr ())" for k
    by (simp add: stacked_branch_def report_def Filter_def)
  show "stacked_case fs directory collection filt keyword
          = ([Line (''0 softwares found for '' @ collection)], Inr ())"
    using known w c b by (auto simp: stacked_case_def stacked_get_module_names_def)
qed

theorem cleanup_unknown_kind_exits_witness:
  "''Bogus'' \<notin> {''MPI'', ''Python'', ''Compilers''}
   \<and> walk (example_fs\<lparr>walk := (\<lambda>p. [p])\<rparr>) (os_path_join ''/sw/modules'' ''Bogus'') \<noteq> []
   \<and> stacked_module_path_cleanup [''/sw/modules/Bogus''] ''Bogus'' = Inl (SystemExit 1)
   \<and> stacked_case (example_fs\<lparr>walk := (\<lambda>p. [p])\<rparr>) ''/sw/modules'' ''Bogus'' False []
       = ([], Inl (SystemExit 1))
   \<and> ''MPI'' \<in> {''MPI'', ''Python'', ''Compilers''}
   \<and> stacked_module_path_cleanup
        [''/sw/modules/MPI'', ''/sw/modules/MPI/mvapich2/gcc/fftw'',
         ''/sw/modules/MPI/mvapich2/gcc/fftw/doc''] ''MPI''
       = Inr [''/sw/modules/MPI/mvapich2/gcc/fftw'']
   \<and> walk (example_fs\<lparr>walk := (\<lambda>p. [p])\<rparr>) (os_path_join ''/sw/modules'' ''MPI'')
       = [''/sw/modules/MPI'']
   \<and> length (split_on CHR ''/'' ''/sw/modules/MPI'') = 4
   \<and> stacked_case (example_fs\<lparr>walk := (\<lambda>p. [p])\<rparr>) ''/sw/modules'' ''MPI'' False []
       = ([Line ''0 softwares found for MPI''], Inr ())"
proof -
  let ?fs = "example_fs\<lparr>walk := (\<lambda>p. [p])\<rparr>"
  let ?ms = "[''/sw/modules/MPI'', ''/sw/modules/MPI/mvapich2/gcc/fftw'',
              ''/sw/modules/MPI/mvapich2/gcc/fftw/doc'']"
  have wb: "walk ?fs (os_path_join ''/sw/modules'' ''Bogus'') \<noteq> []"
    by simp
  have wm: "walk ?fs (os_path_join ''/sw/modules'' ''MPI'') = [''/sw/modules/MPI'']"
    by (simp add: os_path_join_def)
  have d: "length (split_on CHR ''/'' ''/sw/modules/MPI'') = 4"
    by simp
  have e: "expected_depth ''MPI'' = 7"
    by (simp add: expected_depth_def)
  from cleanup_unknown_kind_exits
         [of "''Bogus''" "[''/sw/modules/Bogus'']" ?fs "''/sw/modules''" False "[]"] wb
  have bogus: "stacked_module_path_cleanup [''/sw/modules/Bogus''] ''Bogus'' = Inl (SystemExit 1)
               \<and> stacked_case ?fs ''/sw/modules'' ''Bogus'' False [] = ([], Inl (SystemExit 1))"
    by simp
  from cleanup_unknown_kind_exits [of "''MPI''" ?ms ?fs "''/sw/modules''" False "[]"] wm d e
  have mpi: "stacked_module_path_cleanup ?ms ''MPI'' = Inr [''/sw/modules/MPI/mvapich2/gcc/fftw'']
             \<and> stacked_case ?fs ''/sw/modules'' ''MPI'' False []
                 = ([Line ''0 softwares found for MPI''], Inr ())"
    by simp
  from bogus mpi wb wm d show ?thesis
    by simp
qed

section \<open>Filter (C3, C9, C10)\<close>

text \<open>
  C3, as the code has it. \<open>Filter\<close> keeps exactly the groups in which some field of some
  record contains the keyword as a substring, whatever the field: a context field and
  the package identity count like the dependency string. Characters are compared as
  they are, so the test is case-sensitive.
\<close>

theorem Filter_keeps_groups_with_keyword_in_any_field:
  "Filter data keyword =
     filter (\<lambda>g. \<exists>r \<in> set g. \<exists>f \<in> set r. \<exists>p q. f = p @ keyword @ q) data"
  unfolding Filter_def
  by (rule filter_cong) (auto simp: list_ex_iff str_in_iff)

text \<open>
  C3 as stated fails: the only record of this group has an empty dependency string, and
  the group is kept for the keyword \<open>mpi\<close>, which its package identity contains.
\<close>

theorem Filter_dependency_field_only_counterexample:
  "Filter [[[''openmpi/4.1.6'', '''']]] ''mpi'' = [[[''openmpi/4.1.6'', '''']]]
   \<and> \<not> str_in ''mpi'' (last [''openmpi/4.1.6'', ''''])"
  by (simp add: Filter_def)

text \<open>
  C9. \<open>Filter\<close> is idempotent: filtering a filtered list again with the same keyword
  changes nothing.
\<close>

theorem Filter_idempotent:
  "Filter (Filter data keyword) keyword = Filter data keyword"
  by (simp add: Filter_def)

text \<open>
  C10. The result of \<open>Filter\<close> is a subsequence of its input: the groups kept are groups
  of the input, unchanged and in their order. A group without records is never kept,
  whatever the keyword, the empty one included.
\<close>

theorem Filter_is_selection:
  "subseq (Filter data keyword) data
   \<and> set (Filter data keyword) \<subseteq> set data
   \<and> [] \<notin> set (Filter data keyword)
   \<and> Filter ([] # data) [] = Filter data []"
  by (auto simp: Filter_def)

section \<open>Enumeration of modules (C7)\<close>

text \<open>
  C7 fails on the code. In the example installation the flat collection \<open>Apps\<close> holds
  the plain file \<open>README\<close>, which is no directory, and \<open>get_module_names\<close> returns it
  as a module name: the test of the comprehension is on \<open>directory/collection\<close> and is
  the same for every entry.
\<close>

theorem get_module_names_returns_plain_file:
  "get_module_names example_fs ''/sw/modules'' ''Apps'' = ([], Some [''README'', ''gcc''])
   \<and> \<not> isdir example_fs (os_path_join3 ''/sw/modules'' ''Apps'' ''README'')"
  by (simp add: get_module_names_def example_fs_def os_path_join_def os_path_join3_def)

text \<open>Whatever the file system, the entries are returned all or none.\<close>

lemma get_module_names_all_or_none:
  "listdir fs (os_path_join directory collection) = Inr names \<Longrightarrow>
   get_module_names fs directory collection =
     ([], Some (if isdir fs (os_path_join directory collection) then names else []))"
  by (simp add: get_module_names_def)

section \<open>Reading module files (C4)\<close>

text \<open>
  What holds of C4. A file that is read and declares nothing gives a record whose
  dependency field is the empty string; a file whose reading raises anything but
  \<open>FileNotFoundError\<close> gives a warning and no record, and the loop goes on.
\<close>

lemma loop_no_dependency:
  "findall_deps lua_contents = [] \<Longrightarrow>
   get_module_dependency_loop ((pkg_ver, Content lua_contents) # files) pkg_name printed output =
   get_module_dependency_loop files pkg_name printed (output @ [[pkg_name @ ''/'' @ pkg_ver, '''']])"
  by simp

lemma loop_other_error:
  "get_module_dependency_loop ((pkg_ver, OtherError e) # files) pkg_name printed output =
   get_module_dependency_loop files pkg_name
     (printed @ [Line (''An error occurred: '' @ e)]) output"
  by simp

lemma loop_keeps_printed_and_output:
  "\<exists>p. fst (get_module_dependency_loop files pkg_name printed acc) = printed @ p
       \<and> (\<forall>out'. snd (get_module_dependency_loop files pkg_name printed acc) = Inr out' \<longrightarrow>
             (\<exists>recs. out' = acc @ recs))"
proof (induction files pkg_name printed acc rule: get_module_dependency_loop.induct)
  case (1 pkg_name printed acc)
  then show ?case by simp
next
  case (2 pkg_ver r files pkg_name printed acc)
  show ?case
  proof (cases r)
    case (Content c)
    with 2(1,2)[of c "findall_deps c"] show ?thesis
      by (cases "findall_deps c = []") (auto simp: Let_def)
  next
    case FileNotFound
    then show ?thesis by simp
  next
    case (OtherError e)
    with 2(3)[of e] show ?thesis by auto
  qed
qed

text \<open>
  C4 fails on the code where the failure is a \<open>FileNotFoundError\<close>. The module \<open>tool\<close>
  of the collection \<open>Broken\<close> holds the dangling link \<open>1.0.lua\<close> and the readable file
  \<open>2.0.lua\<close>: the function prints nothing, returns no record for \<open>2.0.lua\<close> either,
  and ends in a \<open>NameError\<close>, which ends \<open>main\<close> as well.
\<close>

theorem get_module_dependency_file_not_found_is_fatal:
  "get_module_dependency example_fs ''/sw/modules/Broken/tool'' ''tool'' = ([], Inl NameError)
   \<and> main example_fs \<lparr>args_dir = ''/sw/modules'', args_collection = Some ''Broken'',
                       args_filter = ''''\<rparr> = ([], Inl NameError)"
  by (simp add: get_module_dependency_def main_def gather_collections_def list_of_strings_def
                flat_case_def get_module_names_def example_fs_def os_path_join_def
                os_path_join3_def)

section \<open>Invalid collection names (C6)\<close>

text \<open>
  C6. When the collections have been discovered and the list given with
  \<open>--collection\<close> holds a name that is not among them, \<open>main\<close> prints
  \<open>Invalid Collection Name\<close> and nothing else, and exits with status 1.
\<close>

theorem main_invalid_collection_name:
  assumes "gather_collections fs (args_dir a) = (p, Some found)"
    and "args_collection a = Some arg"
    and "x \<in> set (list_of_strings arg)"
    and "x \<notin> set found"
  shows "main fs a = ([Line ''Invalid Collection Name''], Inl (SystemExit 1))
         \<and> exit_status (SystemExit 1) \<noteq> 0"
proof -
  have "p = []"
    using assms(1) by (auto simp: gather_collections_def split: sum.splits)
  moreover have "\<not> list_all (\<lambda>x. x \<in> set (filter (\<lambda>col. col \<noteq> ''Collections'') found))
                     (list_of_strings arg)"
    using assms(3,4) by (auto simp: list_all_iff)
  ultimately show ?thesis
    using assms(1,2) by (simp add: main_def Let_def)
qed

theorem main_invalid_collection_name_witness:
  "gather_collections example_fs ''/sw/modules''
     = ([], Some [''Collections'', ''Apps'', ''Broken'', ''MPI''])
   \<and> ''Bogus'' \<in> set (list_of_strings ''Apps,Bogus'')
   \<and> ''Bogus'' \<notin> set [''Collections'', ''Apps'', ''Broken'', ''MPI'']
   \<and> main example_fs \<lparr>args_dir = ''/sw/modules'', args_collection = Some ''Apps,Bogus'',
                       args_filter = ''''\<rparr>
       = ([Line ''Invalid Collection Name''], Inl (SystemExit 1))"
proof -
  have g: "gather_collections example_fs
             (args_dir \<lparr>args_dir = ''/sw/modules'', args_collection = Some ''Apps,Bogus'',
                        args_filter = ''''\<rparr>)
           = ([], Some [''Collections'', ''Apps'', ''Broken'', ''MPI''])"
    by (simp add: gather_collections_def example_fs_def os_path_join_def)
  have c: "args_collection \<lparr>args_dir = ''/sw/modules'', args_collection = Some ''Apps,Bogus'',
                             args_filter = ''''\<rparr> = Some ''Apps,Bogus''"
    by simp
  have m: "''Bogus'' \<in> set (list_of_strings ''Apps,Bogus'')"
    by (simp add: list_of_strings_def)
  have n: "''Bogus'' \<notin> set [''Collections'', ''Apps'', ''Broken'', ''MPI'']"
    by simp
  from main_invalid_collection_name [OF g c m n] g m n show ?thesis
    by simp
qed

section \<open>The count-zero line (C5)\<close>

text \<open>
  C5 as stated fails on the wording of the line. In the example installation the only
  MPI package, \<open>fftw\<close> under \<open>mvapich2/gcc\<close>, depends on \<open>gcc/10\<close>; filtering the
  collection by \<open>mpi\<close> leaves nothing, and the line printed reads \<open>0 softwares found\<close>,
  not \<open>0 software found\<close>.
\<close>

theorem stacked_case_zero_line_wording_counterexample:
  "stacked_case example_fs ''/sw/modules'' ''MPI'' True ''mpi''
     = ([Line ''0 softwares found for MPI''], Inr ())
   \<and> [Line ''0 softwares found for MPI''] \<noteq> [Line ''0 software found for MPI'']"
  by (simp add: stacked_case_def stacked_get_module_names_def stacked_module_path_cleanup_def
                stacked_branch_def get_module_dependency_def findall_deps_def match_dep_def
                is_space_def dep_open_def dep_close_def dquote_def newline_def
                report_def Filter_def example_fs_def os_path_join_def os_path_join3_def)

text \<open>
  C5, as the code has it. For a stacked collection whose walk is not empty, and for a
  flat collection with at least one entry that is filtered by a keyword: when the scan
  ends without exception and no group is left after the optional filtering, the program
  prints, behind the warnings of the scan, the one line
  \<open>0 softwares found for <collection>\<close> and no table.
\<close>

theorem zero_groups_give_count_zero_line:
  "(collection \<in> {''MPI'', ''Python'', ''Compilers''}
    \<and> stacked_get_module_names fs directory collection \<noteq> []
    \<and> stacked_module_path_cleanup (stacked_get_module_names fs directory collection) collection
        = Inr modules
    \<and> stacked_loop fs directory collection (layout_of collection) modules [] [] = (p, Inr groups)
    \<and> (if filt then Filter groups keyword else groups) = []
    \<longrightarrow> stacked_case fs directory collection filt keyword
          = (p @ [Line (''0 softwares found for '' @ collection)], Inr ()))
   \<and> (get_module_names fs directory collection = (p', Some x0)
      \<and> x0 \<noteq> []
      \<and> flat_loop fs directory collection x0 [] [] = (q, Inr groups')
      \<and> Filter groups' keyword = []
      \<longrightarrow> flat_case fs directory collection True keyword
            = (p' @ q @ [Line (''0 softwares found for '' @ collection)], Inr ()))"
  by (auto simp: stacked_case_def stacked_branch_def flat_case_def report_def layout_of_def
                 Let_def)

theorem zero_groups_give_count_zero_line_witness:
  "stacked_get_module_names example_fs ''/sw/modules'' ''MPI'' \<noteq> []
   \<and> stacked_module_path_cleanup (stacked_get_module_names example_fs ''/sw/modules'' ''MPI'')
        ''MPI'' = Inr [''/sw/modules/MPI/mvapich2/gcc/fftw'']
   \<and> stacked_loop example_fs ''/sw/modules'' ''MPI'' (layout_of ''MPI'')
        [''/sw/modules/MPI/mvapich2/gcc/fftw''] [] []
        = ([], Inr [[[''mvapich2'', ''gcc'', ''fftw/3.3'', ''gcc/10'']]])
   \<and> Filter [[[''mvapich2'', ''gcc'', ''fftw/3.3'', ''gcc/10'']]] ''mpi'' = []
   \<and> stacked_case example_fs ''/sw/modules'' ''MPI'' True ''mpi''
        = ([Line ''0 softwares found for MPI''], Inr ())
   \<and> get_module_names example_fs ''/sw/modules'' ''Apps'' = ([], Some [''README'', ''gcc''])
   \<and> flat_loop example_fs ''/sw/modules'' ''Apps'' [''README'', ''gcc''] [] []
        = ([], Inr [[], [[''gcc/10.3.0'', '''']]])
   \<and> Filter [[], [[''gcc/10.3.0'', '''']]] ''mpi'' = []
   \<and> flat_case example_fs ''/sw/modules'' ''Apps'' True ''mpi''
        = ([Line ''0 softwares found for Apps''], Inr ())"
proof -
  have w: "stacked_get_module_names example_fs ''/sw/modules'' ''MPI'' \<noteq> []"
    by (simp add: stacked_get_module_names_def example_fs_def os_path_join_def)
  have c: "stacked_module_path_cleanup (stacked_get_module_names example_fs ''/sw/modules'' ''MPI'')
             ''MPI'' = Inr [''/sw/modules/MPI/mvapich2/gcc/fftw'']"
    by (simp add: stacked_get_module_names_def stacked_module_path_cleanup_def example_fs_def
                  os_path_join_def)
  have l: "stacked_loop example_fs ''/sw/modules'' ''MPI'' (layout_of ''MPI'')
             [''/sw/modules/MPI/mvapich2/gcc/fftw''] [] []
           = ([], Inr [[[''mvapich2'', ''gcc'', ''fftw/3.3'', ''gcc/10'']]])"
    by (simp add: layout_of_def get_module_dependency_def findall_deps_def match_dep_def
                  is_space_def dep_open_def dep_close_def dquote_def newline_def
                  example_fs_def os_path_join_def os_path_join3_def)
  have f: "Filter [[[''mvapich2'', ''gcc'', ''fftw/3.3'', ''gcc/10'']]] ''mpi'' = []"
    by (simp add: Filter_def)
  have n: "get_module_names example_fs ''/sw/modules'' ''Apps'' = ([], Some [''README'', ''gcc''])"
    by (simp add: get_module_names_def example_fs_def os_path_join_def)
  have fl: "flat_loop example_fs ''/sw/modules'' ''Apps'' [''README'', ''gcc''] [] []
            = ([], Inr [[], [[''gcc/10.3.0'', '''']]])"
    by (simp add: get_module_dependency_def findall_deps_def match_dep_def
                  is_space_def dep_open_def dep_close_def dquote_def newline_def
                  example_fs_def os_path_join_def os_path_join3_def)
  have ff: "Filter [[], [[''gcc/10.3.0'', '''']]] ''mpi'' = []"
    by (simp add: Filter_def)
  from zero_groups_give_count_zero_line
         [of "''MPI''" example_fs "''/sw/modules''" "[''/sw/modules/MPI/mvapich2/gcc/fftw'']"
             "[]" "[[[''mvapich2'', ''gcc'', ''fftw/3.3'', ''gcc/10'']]]" True "''mpi''"
             "[]" "[''README'', ''gcc'']" "[]" "[[], [[''gcc/10.3.0'', '''']]]"]
       w c l f
  have s: "stacked_case example_fs ''/sw/modules'' ''MPI'' True ''mpi''
           = ([Line ''0 softwares found for MPI''], Inr ())"
    by simp
  from zero_groups_give_count_zero_line
         [of "''Apps''" example_fs "''/sw/modules''" "[]" "[]" "[]" True "''mpi''"
             "[]" "[''README'', ''gcc'']" "[]" "[[], [[''gcc/10.3.0'', '''']]]"]
       n fl ff
  have t: "flat_case example_fs ''/sw/modules'' ''Apps'' True ''mpi''
           = ([Line ''0 softwares found for Apps''], Inr ())"
    by simp
  from w c l f s n fl ff t show ?thesis by blast
qed

text \<open>
  Two behaviours of the flat branch that the count-zero line does not cover. Without a
  keyword the group of every entry is kept, empty or not, so a collection none of whose
  entries holds a module file gets a table without rows; and a collection without
  entries gets no output at all.
\<close>

lemma flat_case_empty_table:
  "flat_case (example_fs\<lparr>glob := (\<lambda>p. [])\<rparr>) ''/sw/modules'' ''Apps'' False []
     = ([Line [newline], Table [''Apps Packages'', ''Dependency''] []], Inr ())"
  by (simp add: flat_case_def get_module_names_def get_module_dependency_def report_def
                example_fs_def os_path_join_def os_path_join3_def)

lemma flat_case_no_entries_prints_nothing:
  "get_module_names fs directory collection = (p, Some []) \<Longrightarrow>
   flat_case fs directory collection filt keyword = (p, Inr ())"
  by (simp add: flat_case_def)

section \<open>The dependency list (C1)\<close>

text \<open>The specification's test of a line is one attempt of the pattern on the line.\<close>

lemma starts_with_strip_prefix:
  "starts_with p s \<longleftrightarrow> strip_prefix p s \<noteq> None"
  by (induction p s rule: strip_prefix.induct) auto

lemma strip_prefix_drop:
  "strip_prefix p s = Some r \<Longrightarrow> drop (length p) s = r"
  by (simp add: strip_prefix_Some)

lemma spec_line_name_match_dep: "spec_line_name line = map_option fst (match_dep line)"
proof (cases "strip_prefix dep_open (dropWhile is_space line)")
  case None
  then show ?thesis
    by (simp add: spec_line_name_def match_dep_def starts_with_strip_prefix)
next
  case (Some u)
  then have u: "drop (length dep_open) (dropWhile is_space line) = u"
    by (rule strip_prefix_drop)
  have d: "drop (length (takeWhile (\<lambda>c. c \<noteq> dquote) u)) u = dropWhile (\<lambda>c. c \<noteq> dquote) u"
    by (rule dropWhile_eq_drop [symmetric])
  show ?thesis
    using Some u d
    by (auto simp: spec_line_name_def match_dep_def starts_with_strip_prefix Let_def
             split: option.splits)
qed

text \<open>The scan outside a line start runs to the next line feed.\<close>

lemma findall_from_False_line:
  "newline \<notin> set l \<Longrightarrow> findall_from False l = []"
  by (induction l) auto

lemma findall_from_False_skip:
  "newline \<notin> set l \<Longrightarrow> findall_from False (l @ newline # s) = findall_from True s"
  by (induction l) auto

lemma findall_from_no_match:
  "match_dep s = None \<Longrightarrow> findall_from True s = findall_from False s"
  by (cases s) auto

lemma match_dep_Nil: "match_dep [] = None"
  by (simp add: match_dep_def dep_open_def)

lemma findall_from_match:
  "match_dep s = Some (n, r) \<Longrightarrow> findall_from True s = n # findall_from False r"
  by (cases s) (auto simp: match_dep_Nil)

text \<open>A line of whitespace only: the pattern looks through it, and so does the scan.\<close>

lemma is_space_newline: "is_space newline"
  by (simp add: is_space_def newline_def)

lemma match_dep_blank_line:
  assumes "\<forall>c \<in> set l. is_space c"
  shows "match_dep (l @ newline # s) = match_dep s"
proof -
  have "dropWhile is_space (l @ newline # s) = dropWhile is_space s"
    using assms by (simp add: is_space_newline)
  then show ?thesis by (simp add: match_dep_def)
qed

lemma match_dep_blank:
  assumes "\<forall>c \<in> set l. is_space c"
  shows "match_dep l = None"
proof -
  have e: "dropWhile is_space l = []" using assms by simp
  show ?thesis unfolding match_dep_def e by (simp add: dep_open_def)
qed

lemma findall_from_blank_line:
  assumes "\<forall>c \<in> set l. is_space c" and "newline \<notin> set l"
  shows "findall_from True (l @ newline # s) = findall_from True s"
proof (cases "match_dep s")
  case None
  then have "match_dep (l @ newline # s) = None"
    using assms(1) by (simp add: match_dep_blank_line)
  then have "findall_from True (l @ newline # s) = findall_from False (l @ newline # s)"
    by (rule findall_from_no_match)
  then show ?thesis using assms(2) by (simp add: findall_from_False_skip)
next
  case (Some a)
  obtain n r where a: "a = (n, r)" by (cases a)
  have "match_dep (l @ newline # s) = Some (n, r)"
    using assms(1) Some a by (simp add: match_dep_blank_line)
  then have "findall_from True (l @ newline # s) = n # findall_from False r"
    by (rule findall_from_match)
  moreover have "findall_from True s = n # findall_from False r"
    using Some a by (simp add: findall_from_match)
  ultimately show ?thesis by simp
qed

text \<open>A line with something on it: what the pattern does on the text and on the line.\<close>

lemma strip_prefix_line:
  "newline \<notin> set p \<Longrightarrow>
   strip_prefix p (t @ newline # s) = map_option (\<lambda>r. r @ newline # s) (strip_prefix p t)"
  by (induction p t rule: strip_prefix.induct) auto

lemma newline_notin_dep_open: "newline \<notin> set dep_open"
  by (simp add: dep_open_def newline_def dquote_def)

lemma newline_notin_dep_close: "newline \<notin> set dep_close"
  by (simp add: dep_close_def newline_def dquote_def)

lemma dropWhile_append_Cons:
  "dropWhile P xs = y # ys \<Longrightarrow> dropWhile P (xs @ zs) = y # ys @ zs"
  by (induction xs) (auto split: if_splits)

lemma takeWhile_append_Cons:
  "dropWhile P xs = y # ys \<Longrightarrow> takeWhile P (xs @ zs) = takeWhile P xs"
  by (induction xs) (auto split: if_splits)

lemma strip_prefix_append: "strip_prefix p (p @ r) = Some r"
  by (simp add: strip_prefix_Some)

lemma match_dep_append:
  assumes "match_dep l = Some (n, r)"
  shows "match_dep (l @ s) = Some (n, r @ s)"
proof -
  from assms obtain u where
    u: "dropWhile is_space l = dep_open @ u" and
    n: "n = takeWhile (\<lambda>c. c \<noteq> dquote) u" "n \<noteq> []" and
    r: "dropWhile (\<lambda>c. c \<noteq> dquote) u = dep_close @ r"
    by (auto simp: match_dep_def Let_def strip_prefix_Some split: option.splits if_splits)
  from u have "dropWhile is_space (l @ s) = dep_open @ u @ s"
    by (simp add: dep_open_def dropWhile_append_Cons)
  then have a: "strip_prefix dep_open (dropWhile is_space (l @ s)) = Some (u @ s)"
    by (simp add: strip_prefix_append)
  from r have t: "takeWhile (\<lambda>c. c \<noteq> dquote) (u @ s) = n"
    and "dropWhile (\<lambda>c. c \<noteq> dquote) (u @ s) = dep_close @ r @ s"
    by (simp_all add: n dep_close_def dropWhile_append_Cons takeWhile_append_Cons)
  then have b: "strip_prefix dep_close (dropWhile (\<lambda>c. c \<noteq> dquote) (u @ s)) = Some (r @ s)"
    by (simp add: strip_prefix_append)
  show ?thesis
    unfolding match_dep_def a by (simp add: t b n(2))
qed

lemma match_dep_line_None:
  assumes "match_dep l = None" and "newline \<notin> set l" and "\<exists>x \<in> set l. \<not> is_space x"
    and "match_dep (l @ newline # s) = Some (n, r)"
  shows "newline \<in> set n"
proof -
  from assms(3) have d: "dropWhile is_space (l @ newline # s) = dropWhile is_space l @ newline # s"
    by auto
  from assms(4) obtain u' where
    u': "strip_prefix dep_open (dropWhile is_space (l @ newline # s)) = Some u'" and
    n: "n = takeWhile (\<lambda>c. c \<noteq> dquote) u'" and
    r: "strip_prefix dep_close (dropWhile (\<lambda>c. c \<noteq> dquote) u') = Some r"
    by (auto simp: match_dep_def Let_def split: option.splits if_splits)
  from u' obtain u where
    u: "strip_prefix dep_open (dropWhile is_space l) = Some u" and uu: "u' = u @ newline # s"
    by (auto simp: d strip_prefix_line newline_notin_dep_open)
  show ?thesis
  proof (cases "dquote \<in> set u")
    case True
    then have t: "takeWhile (\<lambda>c. c \<noteq> dquote) u' = takeWhile (\<lambda>c. c \<noteq> dquote) u"
      and e: "dropWhile (\<lambda>c. c \<noteq> dquote) u' = dropWhile (\<lambda>c. c \<noteq> dquote) u @ newline # s"
      by (simp_all add: uu)
    from r obtain r' where "strip_prefix dep_close (dropWhile (\<lambda>c. c \<noteq> dquote) u) = Some r'"
      by (auto simp: e strip_prefix_line newline_notin_dep_close)
    moreover from assms(4) have "takeWhile (\<lambda>c. c \<noteq> dquote) u' \<noteq> []"
      using u' by (auto simp: match_dep_def Let_def split: option.splits if_splits)
    ultimately have "match_dep l \<noteq> None"
      using u t by (simp add: match_dep_def)
    with assms(1) show ?thesis by simp
  next
    case False
    then have "\<And>x. x \<in> set u \<Longrightarrow> x \<noteq> dquote" by auto
    then have "takeWhile (\<lambda>c. c \<noteq> dquote) (u @ newline # s)
               = u @ takeWhile (\<lambda>c. c \<noteq> dquote) (newline # s)"
      by (rule takeWhile_append2)
    moreover have "newline \<noteq> dquote"
      by (simp add: newline_def dquote_def)
    ultimately show ?thesis
      by (simp add: n uu)
  qed
qed

lemma match_dep_rest_subset:
  assumes "match_dep l = Some (n, r)"
  shows "set r \<subseteq> set l"
proof -
  from assms obtain u where
    u: "dropWhile is_space l = dep_open @ u" and
    r: "dropWhile (\<lambda>c. c \<noteq> dquote) u = dep_close @ r"
    by (auto simp: match_dep_def Let_def strip_prefix_Some split: option.splits if_splits)
  have "set r \<subseteq> set (dropWhile (\<lambda>c. c \<noteq> dquote) u)" by (simp add: r)
  also have "\<dots> \<subseteq> set u" by (auto dest: set_dropWhileD)
  also have "\<dots> \<subseteq> set (dropWhile is_space l)" by (simp add: u)
  also have "\<dots> \<subseteq> set l" by (auto dest: set_dropWhileD)
  finally show ?thesis .
qed

text \<open>Cutting into lines.\<close>

lemma split_on_line:
  "sep \<notin> set l \<Longrightarrow> split_on sep l = [l]"
  by (induction l) auto

lemma split_on_append_line:
  "sep \<notin> set l \<Longrightarrow> split_on sep (l @ sep # s) = l # split_on sep s"
  by (induction l) auto

lemma first_line:
  obtains l where "s = l" "newline \<notin> set l"
  | l s' where "s = l @ newline # s'" "newline \<notin> set l"
proof (cases "dropWhile (\<lambda>c. c \<noteq> newline) s")
  case Nil
  then have "newline \<notin> set s" by auto
  then show ?thesis using that(1) by simp
next
  case (Cons c s')
  then have "c = newline" using hd_dropWhile [of "\<lambda>c. c \<noteq> newline" s] by auto
  then have "s = takeWhile (\<lambda>c. c \<noteq> newline) s @ newline # s'"
    using Cons takeWhile_dropWhile_id [of "\<lambda>c. c \<noteq> newline" s] by simp
  moreover have "newline \<notin> set (takeWhile (\<lambda>c. c \<noteq> newline) s)"
    by (auto dest: set_takeWhileD)
  ultimately show ?thesis using that(2) by blast
qed

text \<open>
  The scan against the lines, for a text in which no captured name runs over a line
  feed. By induction on the length of the text, one line at a time.
\<close>

lemma findall_from_lines:
  "(\<forall>n \<in> set (findall_from True s). newline \<notin> set n) \<Longrightarrow>
   findall_from True s =
     List.map_filter (\<lambda>l. map_option fst (match_dep l)) (split_on newline s)"
proof (induction s rule: length_induct)
  case (1 s)
  let ?f = "\<lambda>l. map_option fst (match_dep l)"
  note names = "1.prems"
  show ?case
  proof (cases rule: first_line [of s])
    case (1 l)
    then have lines: "split_on newline s = [s]"
      by (simp add: split_on_line)
    show ?thesis
    proof (cases "match_dep s")
      case None
      then have "findall_from True s = []"
        using 1 by (simp add: findall_from_no_match findall_from_False_line)
      then show ?thesis
        using None by (simp add: lines)
    next
      case (Some a)
      obtain n r where a: "a = (n, r)" by (cases a)
      have "newline \<notin> set r"
        using match_dep_rest_subset [of s n r] Some a 1 by auto
      then have "findall_from True s = [n]"
        using Some a by (simp add: findall_from_match findall_from_False_line)
      then show ?thesis
        using Some a by (simp add: lines)
    qed
  next
    case (2 l s')
    then have lines: "split_on newline s = l # split_on newline s'"
      by (simp add: split_on_append_line)
    have shorter: "length s' < length s"
      using 2 by simp
    have step: "findall_from True s' = List.map_filter ?f (split_on newline s')"
      if "set (findall_from True s') \<subseteq> set (findall_from True s)"
      using "1.IH" shorter names that by blast
    show ?thesis
    proof (cases "\<forall>c \<in> set l. is_space c")
      case True
      then have "findall_from True s = findall_from True s'"
        using 2 by (simp add: findall_from_blank_line)
      moreover have "?f l = None"
        using True by (simp add: match_dep_blank)
      ultimately show ?thesis
        using step by (simp add: lines)
    next
      case False
      show ?thesis
      proof (cases "match_dep l")
        case (Some a)
        obtain n r where a: "a = (n, r)" by (cases a)
        have "newline \<notin> set r"
          using match_dep_rest_subset [of l n r] Some a 2 by auto
        moreover have "match_dep s = Some (n, r @ newline # s')"
          using match_dep_append [of l n r "newline # s'"] Some a 2 by simp
        ultimately have e: "findall_from True s = n # findall_from True s'"
          by (simp add: findall_from_match findall_from_False_skip)
        then have "set (findall_from True s') \<subseteq> set (findall_from True s)"
          by auto
        then have "findall_from True s' = List.map_filter ?f (split_on newline s')"
          by (rule step)
        then show ?thesis
          using e Some a by (simp add: lines)
      next
        case None
        have "match_dep s = None"
        proof (rule ccontr)
          assume "match_dep s \<noteq> None"
          then obtain n r where m: "match_dep s = Some (n, r)" by auto
          then have "newline \<in> set n"
            using match_dep_line_None [of l s' n r] None False 2 by auto
          moreover have "n \<in> set (findall_from True s)"
            using m by (simp add: findall_from_match)
          ultimately show False using names by blast
        qed
        then have "findall_from True s = findall_from True s'"
          using 2 by (simp add: findall_from_no_match findall_from_False_skip)
        then show ?thesis
          using step None by (simp add: lines)
      qed
    qed
  qed
qed

text \<open>
  C1, as the code has it. Whenever no extracted name runs over a line feed, the list
  extracted from a file's text is the list of the names of the lines that declare a
  dependency at their start, behind optional whitespace, one per line at most and in
  the order of the lines; nothing that stands further right in a line is in it.
\<close>

theorem findall_deps_is_line_list:
  assumes "\<forall>n \<in> set (findall_deps contents). newline \<notin> set n"
  shows "findall_deps contents = spec_dependency_list contents"
proof -
  have "spec_line_name = (\<lambda>l. map_option fst (match_dep l))"
    by (rule ext) (rule spec_line_name_match_dep)
  then show ?thesis
    using assms findall_from_lines [of contents]
    by (simp add: findall_deps_def spec_dependency_list_def)
qed

theorem findall_deps_is_line_list_witness:
  "findall_deps example_lua = [''gcc/10'', ''openmpi/4'']
   \<and> spec_dependency_list example_lua = [''gcc/10'', ''openmpi/4'']"
proof -
  have v: "findall_deps example_lua = [''gcc/10'', ''openmpi/4'']"
    by (simp add: example_lua_def findall_deps_def match_dep_def is_space_def
                  dep_open_def dep_close_def dquote_def newline_def)
  then have h: "\<forall>n \<in> set (findall_deps example_lua). newline \<notin> set n"
    by (simp add: newline_def)
  from findall_deps_is_line_list [OF h] v show ?thesis
    by simp
qed

text \<open>
  C1 as stated fails for a name written over two lines: no line of this text matches
  the declaration, and the code extracts the name with the line feed in it.
\<close>

theorem findall_deps_multiline_name_counterexample:
  "findall_deps (dep_open @ ''a'' @ [newline] @ ''b'' @ dep_close) = [''a'' @ [newline] @ ''b'']
   \<and> spec_dependency_list (dep_open @ ''a'' @ [newline] @ ''b'' @ dep_close) = []"
  by (simp add: findall_deps_def spec_dependency_list_def spec_line_name_def match_dep_def
                is_space_def dep_open_def dep_close_def dquote_def newline_def)

end
